theory Spec2Isabelle
  imports Complex_Main
begin

section \<open>Python text primitives used by \<open>hitl_server.py\<close>\<close>

text \<open>
  A Python \<open>str\<close> is modelled as a \<open>string\<close>: one \<open>char\<close> per code point, for the
  code points 0..255 (Latin-1). On that range the predicates below are Python's own
  \<open>str.isspace\<close>, \<open>str.isdigit\<close> and \<open>str.lower\<close>; text with code points above 255 is
  outside the model.
\<close>

definition isspace :: "char \<Rightarrow> bool" where
  \<comment> \<open>the white space of \<open>str.strip()\<close> and \<open>str.split()\<close>: TAB..CR, FS..US, space, NEL, NBSP\<close>
  "isspace c = (let n = (of_char c :: nat) in
     (9 \<le> n \<and> n \<le> 13) \<or> (28 \<le> n \<and> n \<le> 32) \<or> n = 133 \<or> n = 160)"

definition is_ascii_digit :: "char \<Rightarrow> bool" where
  "is_ascii_digit c = (let n = (of_char c :: nat) in 48 \<le> n \<and> n \<le> 57)"

definition isdigit_char :: "char \<Rightarrow> bool" where
  \<comment> \<open>\<open>0\<close>..\<open>9\<close> and the superscripts two, three and one (0xB2, 0xB3, 0xB9)\<close>
  "isdigit_char c = (let n = (of_char c :: nat) in
     (48 \<le> n \<and> n \<le> 57) \<or> n = 178 \<or> n = 179 \<or> n = 185)"

definition isdigit :: "string \<Rightarrow> bool" where
  \<comment> \<open>\<open>str.isdigit()\<close>: at least one character, and all of them digits\<close>
  "isdigit s = (s \<noteq> [] \<and> list_all isdigit_char s)"

definition lower_char :: "char \<Rightarrow> char" where
  \<comment> \<open>\<open>A\<close>..\<open>Z\<close> and 0xC0..0xDE except the multiplication sign 0xD7 move up by 32\<close>
  "lower_char c = (let n = (of_char c :: nat) in
     if (65 \<le> n \<and> n \<le> 90) \<or> (192 \<le> n \<and> n \<le> 222 \<and> n \<noteq> 215)
     then char_of (n + 32) else c)"

definition lower :: "string \<Rightarrow> string" where
  "lower s = map lower_char s"

definition lstrip :: "string \<Rightarrow> string" where
  "lstrip s = dropWhile isspace s"

definition rstrip :: "string \<Rightarrow> string" where
  "rstrip s = rev (dropWhile isspace (rev s))"

definition strip :: "string \<Rightarrow> string" where
  \<comment> \<open>\<open>str.strip()\<close>\<close>
  "strip s = rstrip (lstrip s)"

definition rstrip_chars :: "string \<Rightarrow> string \<Rightarrow> string" where
  \<comment> \<open>\<open>s.rstrip(chars)\<close>\<close>
  "rstrip_chars chars s = rev (dropWhile (\<lambda>c. c \<in> set chars) (rev s))"

function py_split :: "string \<Rightarrow> string list" where
  \<comment> \<open>\<open>str.split()\<close> with no separator: the maximal runs of non-white-space characters\<close>
  "py_split s =
     (let s' = dropWhile isspace s
      in if s' = [] then []
         else takeWhile (\<lambda>c. \<not> isspace c) s' # py_split (dropWhile (\<lambda>c. \<not> isspace c) s'))"
  by pat_completeness auto
termination
proof (relation "measure length")
  show "wf (measure length)"
    by simp
next
  fix s s' :: string
  assume s': "s' = dropWhile isspace s" and ne: "s' \<noteq> []"
  then obtain x xs where eq: "dropWhile isspace s = x # xs"
    by (cases "dropWhile isspace s") auto
  have "\<not> isspace x"
    using hd_dropWhile [of isspace s] eq by simp
  then have "dropWhile (\<lambda>c. \<not> isspace c) s' = dropWhile (\<lambda>c. \<not> isspace c) xs"
    using s' eq by simp
  moreover have "length (dropWhile (\<lambda>c. \<not> isspace c) xs) \<le> length xs"
    by (rule length_dropWhile_le)
  moreover have "length (x # xs) \<le> length s"
    using length_dropWhile_le [of isspace s] eq by simp
  ultimately show "(dropWhile (\<lambda>c. \<not> isspace c) s', s) \<in> measure length"
    by simp
qed

fun join :: "string \<Rightarrow> string list \<Rightarrow> string" where
  \<comment> \<open>\<open>sep.join(xs)\<close>\<close>
  "join sep [] = []"
| "join sep [x] = x"
| "join sep (x # y # ys) = x @ sep @ join sep (y # ys)"

definition digit_char :: "nat \<Rightarrow> char" where
  "digit_char d = char_of (48 + d)"

function str_nat :: "nat \<Rightarrow> string" where
  \<comment> \<open>\<open>str(n)\<close> of a non-negative \<open>int\<close>\<close>
  "str_nat n = (if n < 10 then [digit_char n] else str_nat (n div 10) @ [digit_char (n mod 10)])"
  by pat_completeness auto
termination
  by (relation "measure id") auto

definition str_int :: "int \<Rightarrow> string" where
  "str_int i = (if i < 0 then CHR ''-'' # str_nat (nat (- i)) else str_nat (nat i))"

section \<open>Exceptions and the values a channel returns\<close>

text \<open>
  An exception instance is recorded by what the handlers of \<open>ask_clarification\<close> look at:
  whether \<open>except asyncio.TimeoutError\<close> catches it, and the text \<open>str(e)\<close>. Every
  exception of the model is an \<open>Exception\<close> (task cancellation and interpreter exit are
  outside the model).
\<close>

datatype pyexc = PyExc (is_asyncio_timeout: bool) (exc_str: string)

definition IndexError :: pyexc where
  \<comment> \<open>\<open>[][0]\<close>\<close>
  "IndexError = PyExc False ''list index out of range''"

definition ValueError :: pyexc where
  \<comment> \<open>\<open>int(token)\<close> on a token it refuses\<close>
  "ValueError = PyExc False ''invalid literal for int() with base 10''"

text \<open>
  The objects \<open>ctx.elicit\<close> can hand back, and the payloads inside them. An instance
  \<open>PObj attrs text\<close> has the attributes \<open>attrs\<close>; a mapping \<open>PDict items text\<close> has the
  entries \<open>items\<close> (keys distinct). For both, \<open>text\<close> is what \<open>str(_)\<close> does: the text
  it returns, or the exception a \<open>__str__\<close> or \<open>__repr__\<close> below it raises.
\<close>

datatype pyval =
    PNone
  | PStr string
  | PInt int
  | PDict "(string \<times> pyval) list" "pyexc + string"
  | PObj "(string \<times> pyval) list" "pyexc + string"

fun py_str :: "pyval \<Rightarrow> pyexc + string" where
  \<comment> \<open>\<open>str(v)\<close>\<close>
  "py_str PNone = Inr ''None''"
| "py_str (PStr s) = Inr s"
| "py_str (PInt i) = Inr (str_int i)"
| "py_str (PDict items text) = text"
| "py_str (PObj attrs text) = text"

fun py_getattr :: "pyval \<Rightarrow> string \<Rightarrow> pyval option" where
  \<comment> \<open>the attribute \<open>name\<close> of \<open>v\<close>, for the names \<open>action\<close>, \<open>data\<close> and \<open>answer\<close>
      (which \<open>None\<close>, \<open>str\<close>, \<open>int\<close> and \<open>dict\<close> do not have); \<open>None\<close> where
      \<open>hasattr(v, name)\<close> is false\<close>
  "py_getattr (PObj attrs text) name = map_of attrs name"
| "py_getattr v name = None"

definition hasattr :: "pyval \<Rightarrow> string \<Rightarrow> bool" where
  "hasattr v name = (py_getattr v name \<noteq> None)"

definition getattr_default :: "pyval \<Rightarrow> string \<Rightarrow> pyval \<Rightarrow> pyval" where
  \<comment> \<open>\<open>getattr(v, name, default)\<close>\<close>
  "getattr_default v name dflt = (case py_getattr v name of None \<Rightarrow> dflt | Some a \<Rightarrow> a)"

fun is_dict :: "pyval \<Rightarrow> bool" where
  \<comment> \<open>\<open>isinstance(v, dict)\<close>\<close>
  "is_dict (PDict items text) = True"
| "is_dict v = False"

fun dict_lookup :: "pyval \<Rightarrow> string \<Rightarrow> pyval option" where
  \<comment> \<open>the entry of a mapping under a key, \<open>None\<close> where \<open>key in v\<close> is false\<close>
  "dict_lookup (PDict items text) key = map_of items key"
| "dict_lookup v key = None"

definition dict_get :: "pyval \<Rightarrow> string \<Rightarrow> pyval \<Rightarrow> pyval" where
  \<comment> \<open>\<open>v.get(key, default)\<close>\<close>
  "dict_get v key dflt = (case dict_lookup v key of None \<Rightarrow> dflt | Some a \<Rightarrow> a)"

definition str_strip :: "pyval \<Rightarrow> pyexc + string" where
  \<comment> \<open>\<open>str(v).strip()\<close>\<close>
  "str_strip v = (case py_str v of Inl e \<Rightarrow> Inl e | Inr s \<Rightarrow> Inr (strip s))"

section \<open>Answer extraction (lines 114 to 141)\<close>

definition accept_try :: "pyval \<Rightarrow> pyexc + string" where
  \<comment> \<open>the body of the \<open>try\<close> on the accept path; in \<open>a or b\<close>, \<open>b\<close> is evaluated only
      when \<open>a\<close> is the empty text\<close>
  "accept_try data =
     (if hasattr data ''answer'' then str_strip (getattr_default data ''answer'' PNone)
      else if is_dict data then
        (case str_strip (dict_get data ''answer'' (PStr [])) of
           Inl e \<Rightarrow> Inl e
         | Inr a \<Rightarrow> if a \<noteq> [] then Inr a else str_strip data)
      else str_strip data)"

definition extract_accept :: "pyval \<Rightarrow> pyexc + string" where
  \<comment> \<open>the \<open>try\<close> with its handler \<open>except Exception: answer = str(data).strip()\<close>\<close>
  "extract_accept data =
     (case accept_try data of Inr a \<Rightarrow> Inr a | Inl e \<Rightarrow> str_strip data)"

definition direct_try :: "pyval \<Rightarrow> pyexc + string" where
  \<comment> \<open>the body of the \<open>try\<close> on the direct-extraction path\<close>
  "direct_try result =
     (if hasattr result ''answer'' then str_strip (getattr_default result ''answer'' PNone)
      else if is_dict result \<and> dict_lookup result ''answer'' \<noteq> None then
        str_strip (dict_get result ''answer'' PNone)
      else str_strip result)"

definition extract_direct :: "pyval \<Rightarrow> string" where
  \<comment> \<open>the \<open>try\<close> with its handler \<open>except Exception: answer = ""\<close>\<close>
  "extract_direct result = (case direct_try result of Inr a \<Rightarrow> a | Inl e \<Rightarrow> [])"

definition extract_answer :: "pyval \<Rightarrow> pyexc + string" where
  "extract_answer result =
     (let action = getattr_default result ''action'' PNone;
          data = getattr_default result ''data'' PNone
      in if action = PStr ''accept'' \<and> data \<noteq> PNone then extract_accept data
         else Inr (extract_direct result))"

section \<open>Choice resolution (lines 143 to 163)\<close>

definition digit_value :: "char \<Rightarrow> nat" where
  "digit_value c = of_char c - 48"

definition int_max_str_digits :: nat where
  \<comment> \<open>CPython's default limit on the digits of a decimal literal given to \<open>int()\<close>\<close>
  "int_max_str_digits = 4300"

definition int_of_digits :: "string \<Rightarrow> pyexc + nat" where
  \<comment> \<open>\<open>int(token)\<close> for a token that passed \<open>token.isdigit()\<close>: the superscript digits
      are no decimal digits, and a literal beyond the digit limit is refused\<close>
  "int_of_digits token =
     (if token \<noteq> [] \<and> list_all is_ascii_digit token \<and> length token \<le> int_max_str_digits
      then Inr (foldl (\<lambda>acc c. 10 * acc + digit_value c) 0 token)
      else Inl ValueError)"

definition numeric_try :: "string list \<Rightarrow> string \<Rightarrow> pyexc + string option" where
  \<comment> \<open>the body of the \<open>try\<close> of lines 148 to 153: the value of \<open>selected\<close> after it,
      or the exception that leaves it\<close>
  "numeric_try choices raw =
     (case py_split raw of
        [] \<Rightarrow> Inl IndexError
      | w # ws \<Rightarrow>
          (let token = rstrip_chars '').:]'' w
           in if isdigit token then
                (case int_of_digits token of
                   Inl e \<Rightarrow> Inl e
                 | Inr idx \<Rightarrow>
                     if 1 \<le> idx \<and> idx \<le> length choices then Inr (Some (choices ! (idx - 1)))
                     else Inr None)
              else Inr None))"

definition numeric_selection :: "string list \<Rightarrow> string \<Rightarrow> string option" where
  \<comment> \<open>the \<open>try\<close> with its handler \<open>except Exception: pass\<close>\<close>
  "numeric_selection choices raw =
     (case numeric_try choices raw of Inr selected \<Rightarrow> selected | Inl e \<Rightarrow> None)"

definition text_selection :: "string list \<Rightarrow> string \<Rightarrow> string option" where
  \<comment> \<open>the loop of lines 157 to 160: the first choice equal to \<open>raw\<close> after \<open>lower()\<close>\<close>
  "text_selection choices raw = find (\<lambda>c. lower raw = lower c) choices"

definition resolve_answer :: "string list option \<Rightarrow> string \<Rightarrow> string" where
  \<comment> \<open>\<open>if choices\<close> is false for \<open>None\<close> and for the empty list; \<open>answer\<close> is a
      \<open>str\<close> on every path, so \<open>isinstance(answer, str)\<close> holds\<close>
  "resolve_answer choices answer =
     (case choices of
        None \<Rightarrow> answer
      | Some cs \<Rightarrow>
          if cs = [] then answer
          else
            (let raw = strip answer;
                 selected = numeric_selection cs raw;
                 selected = (case selected of None \<Rightarrow> text_selection cs raw | Some c \<Rightarrow> Some c)
             in case selected of None \<Rightarrow> answer | Some c \<Rightarrow> c))"

section \<open>The display prompt (lines 91 to 94)\<close>

definition choice_line :: "nat \<times> string \<Rightarrow> string" where
  \<comment> \<open>\<open>f"{i+1}) {str(c)}"\<close>\<close>
  "choice_line ic = str_nat (fst ic + 1) @ '') '' @ snd ic"

definition display_prompt :: "string \<Rightarrow> string list option \<Rightarrow> string" where
  "display_prompt prompt choices =
     (case choices of
        None \<Rightarrow> prompt
      | Some cs \<Rightarrow>
          if cs = [] then prompt
          else
            (let lines = join [CHR 0x0A] (map choice_line (enumerate 0 cs))
             in prompt @ [CHR 0x0A, CHR 0x0A] @ ''Options:'' @ [CHR 0x0A] @ lines @
                [CHR 0x0A] @ ''(Type the value or its number)''))"

section \<open>The elicitation and \<open>ask_clarification\<close>\<close>

text \<open>
  What the awaited \<open>ctx.elicit\<close> does: it returns a value or raises, after some seconds,
  or it never does either. The channel is asked with the requests made before and the
  new message, so that its answer may depend on how often it has been asked.
\<close>

datatype reply = Returns pyval | Raises pyexc

datatype behaviour = Responds real reply | Silent

record Context =
  channel :: "string list \<Rightarrow> string \<Rightarrow> behaviour"
  requests :: "string list"

definition elicit :: "Context \<Rightarrow> string \<Rightarrow> Context \<times> behaviour" where
  "elicit ctx message =
     (ctx\<lparr>requests := requests ctx @ [message]\<rparr>, channel ctx (requests ctx) message)"

definition asyncio_TimeoutError :: pyexc where
  "asyncio_TimeoutError = PyExc True []"

definition wait_for :: "behaviour \<Rightarrow> real \<Rightarrow> reply" where
  \<comment> \<open>\<open>await asyncio.wait_for(aw, timeout)\<close>\<close>
  "wait_for aw timeout =
     (case aw of
        Silent \<Rightarrow> Raises asyncio_TimeoutError
      | Responds t r \<Rightarrow> if t < timeout then r else Raises asyncio_TimeoutError)"

datatype error =
    TimeoutError string
  | RuntimeError string pyexc
  | Propagated pyexc

record clarification =
  question :: string
  answer :: string

definition ask_clarification ::
  "Context \<Rightarrow> string \<Rightarrow> string list option \<Rightarrow> Context \<times> (error + clarification)" where
  "ask_clarification ctx prompt choices =
     (let (ctx', aw) = elicit ctx (display_prompt prompt choices)
      in case wait_for aw 60 of
           Raises e \<Rightarrow>
             if is_asyncio_timeout e then
               (ctx', Inl (TimeoutError
                  ''MCP error -32001: Clarification request timed out after 60 seconds''))
             else (ctx', Inl (RuntimeError (''Elicitation failed: '' @ exc_str e) e))
         | Returns result \<Rightarrow>
             (case extract_answer result of
                Inl e \<Rightarrow> (ctx', Inl (Propagated e))
              | Inr a \<Rightarrow> (ctx', Inr \<lparr>question = prompt, answer = resolve_answer choices a\<rparr>)))"

section \<open>Example inputs\<close>

definition example_choices :: "string list" where
  "example_choices = [''dev'', ''staging'', ''prod'']"

definition accepted :: "pyval \<Rightarrow> pyval" where
  \<comment> \<open>a result with \<open>action == "accept"\<close> and the payload \<open>data\<close>; its own text
      is read on no path that has a payload\<close>
  "accepted data = PObj [(''action'', PStr ''accept''), (''data'', data)] (Inr ''accepted'')"

definition form :: "string \<Rightarrow> pyval" where
  \<comment> \<open>a filled-in \<open>ClarifyAnswer\<close>: an instance with the attribute \<open>answer\<close>\<close>
  "form s = PObj [(''answer'', PStr s)] (Inr (''answer='' @ [CHR 0x27] @ s @ [CHR 0x27]))"

definition answering :: "reply \<Rightarrow> Context" where
  \<comment> \<open>a channel, not asked before, that meets every request after one second\<close>
  "answering r = \<lparr>channel = (\<lambda>asked message. Responds 1 r), requests = []\<rparr>"

definition late_once :: "pyval \<Rightarrow> Context" where
  \<comment> \<open>a channel that is silent when first asked and returns at once when asked again\<close>
  "late_once result =
     \<lparr>channel = (\<lambda>asked message. if asked = [] then Silent else Responds 0 (Returns result)),
      requests = []\<rparr>"

definition unprintable :: pyval where
  \<comment> \<open>an instance without attributes whose \<open>__str__\<close> raises\<close>
  "unprintable = PObj [] (Inl (PyExc False ''boom''))"

definition declined :: pyval where
  \<comment> \<open>a result with \<open>action == "decline"\<close> and no payload\<close>
  "declined = PObj [(''action'', PStr ''decline'')] (Inr (''action='decline'' @ [CHR 0x27]))"

definition blank_entry :: pyval where
  \<comment> \<open>the mapping \<open>{"answer": " "}\<close>\<close>
  "blank_entry = PDict [(''answer'', PStr '' '')] (Inr ''{'answer': ' '}'')"

section \<open>Responding in time\<close>

definition responds_within :: "behaviour \<Rightarrow> real \<Rightarrow> bool" where
  \<comment> \<open>the awaited call returns or raises no later than \<open>d\<close> seconds after the request\<close>
  "responds_within aw d = (case aw of Silent \<Rightarrow> False | Responds t r \<Rightarrow> t \<le> d)"

section \<open>Facts about the primitives\<close>

lemma ask_clarification_returns:
  assumes "wait_for (channel ctx (requests ctx) (display_prompt prompt choices)) 60 = Returns result"
    and "extract_answer result = Inr a"
  shows "snd (ask_clarification ctx prompt choices) =
           Inr \<lparr>question = prompt, answer = resolve_answer choices a\<rparr>"
  using assms by (simp add: ask_clarification_def elicit_def)

lemma ask_clarification_requests:
  "requests (fst (ask_clarification ctx prompt choices)) =
     requests ctx @ [display_prompt prompt choices]"
  by (simp add: ask_clarification_def elicit_def split: reply.splits sum.splits)

lemma answering_reply: "wait_for (channel (answering r) (requests (answering r)) m) 60 = r"
  by (simp add: answering_def wait_for_def)

lemma extract_accepted_form: "extract_answer (accepted (form s)) = Inr (strip s)"
  by (simp add: extract_answer_def accepted_def form_def getattr_default_def extract_accept_def
      accept_try_def hasattr_def str_strip_def)

lemma join_concat:
  "xs \<noteq> [] \<Longrightarrow> join sep (map f xs) @ sep = concat (map (\<lambda>x. f x @ sep) xs)"
  by (induction xs rule: induct_list012) auto

section \<open>The returned question and the display prompt\<close>

text \<open>
  C9. Whenever \<open>ask_clarification\<close> returns, with or without choices, the \<open>question\<close> of
  the result is the prompt as given; the choices only change the message sent to the
  channel, which is the display prompt and, for a non-empty list, differs from the prompt.
\<close>

theorem question_is_prompt:
  assumes "snd (ask_clarification ctx prompt choices) = Inr r"
  shows "question r = prompt \<and>
         requests (fst (ask_clarification ctx prompt choices)) =
           requests ctx @ [display_prompt prompt choices] \<and>
         (\<forall>cs. choices = Some cs \<and> cs \<noteq> [] \<longrightarrow> display_prompt prompt choices \<noteq> prompt)"
proof (intro conjI allI impI)
  show "question r = prompt"
    using assms
    by (auto simp: ask_clarification_def elicit_def split: reply.splits sum.splits if_splits)
  show "requests (fst (ask_clarification ctx prompt choices)) =
          requests ctx @ [display_prompt prompt choices]"
    by (rule ask_clarification_requests)
next
  fix cs
  assume "choices = Some cs \<and> cs \<noteq> []"
  then have "length (display_prompt prompt choices) > length prompt"
    by (simp add: display_prompt_def Let_def)
  then show "display_prompt prompt choices \<noteq> prompt"
    by auto
qed

theorem question_is_prompt_witness:
  "snd (ask_clarification (answering (Returns (accepted (form ''2'')))) ''Pick?''
          (Some example_choices)) =
     Inr \<lparr>question = ''Pick?'', answer = ''staging''\<rparr> \<and>
   question \<lparr>question = ''Pick?'', answer = ''staging''\<rparr> = ''Pick?'' \<and>
   display_prompt ''Pick?'' (Some example_choices) \<noteq> ''Pick?''"
proof -
  have a: "resolve_answer (Some example_choices) (strip ''2'') = ''staging''"
    by code_simp
  have h: "snd (ask_clarification (answering (Returns (accepted (form ''2'')))) ''Pick?''
                  (Some example_choices)) =
             Inr \<lparr>question = ''Pick?'', answer = ''staging''\<rparr>"
    using ask_clarification_returns [OF answering_reply extract_accepted_form] a by simp
  have ne: "example_choices \<noteq> []"
    by (simp add: example_choices_def)
  show ?thesis
    using question_is_prompt [OF h] h ne by simp
qed

text \<open>
  C5. Without choices, or with an empty list, the display prompt is the prompt. With a
  non-empty list it is the prompt, a line break and an empty line, the line \<open>Options:\<close>,
  then for each choice in input order the line made of its 1-based index, \<open>) \<close> and
  the choice, and last the line \<open>(Type the value or its number)\<close>.
\<close>

theorem display_prompt_layout:
  "display_prompt prompt None = prompt \<and>
   display_prompt prompt (Some []) = prompt \<and>
   (cs \<noteq> [] \<longrightarrow>
      display_prompt prompt (Some cs) =
        prompt @ [CHR 0x0A] @ [CHR 0x0A] @ ''Options:'' @ [CHR 0x0A] @
        concat (map (\<lambda>i. str_nat (i + 1) @ '') '' @ cs ! i @ [CHR 0x0A]) [0..<length cs]) @
        ''(Type the value or its number)'')"
proof (intro conjI impI)
  show "display_prompt prompt None = prompt"
    by (simp add: display_prompt_def)
  show "display_prompt prompt (Some []) = prompt"
    by (simp add: display_prompt_def)
next
  assume ne: "cs \<noteq> []"
  have lines: "map choice_line (enumerate 0 cs) =
                 map (\<lambda>i. str_nat (i + 1) @ '') '' @ cs ! i) [0..<length cs]"
    by (rule nth_equalityI) (simp_all add: choice_line_def nth_enumerate_eq)
  have "join [CHR 0x0A] (map choice_line (enumerate 0 cs)) @ [CHR 0x0A] =
          concat (map (\<lambda>i. str_nat (i + 1) @ '') '' @ cs ! i @ [CHR 0x0A]) [0..<length cs])"
    using ne join_concat [of "[0..<length cs]" "[CHR 0x0A]" "\<lambda>i. str_nat (i + 1) @ '') '' @ cs ! i"]
    by (simp add: lines)
  then show "display_prompt prompt (Some cs) =
        prompt @ [CHR 0x0A] @ [CHR 0x0A] @ ''Options:'' @ [CHR 0x0A] @
        concat (map (\<lambda>i. str_nat (i + 1) @ '') '' @ cs ! i @ [CHR 0x0A]) [0..<length cs]) @
        ''(Type the value or its number)''"
    using ne by (simp add: display_prompt_def Let_def)
qed

theorem display_prompt_layout_witness:
  "example_choices \<noteq> [] \<and>
   display_prompt ''Pick?'' (Some example_choices) =
     ''Pick?'' @ [CHR 0x0A] @ [CHR 0x0A] @ ''Options:'' @ [CHR 0x0A] @
     ''1) dev'' @ [CHR 0x0A] @ ''2) staging'' @ [CHR 0x0A] @ ''3) prod'' @ [CHR 0x0A] @
     ''(Type the value or its number)''"
proof -
  have ne: "example_choices \<noteq> []"
    by (simp add: example_choices_def)
  have lines:
    "concat (map (\<lambda>i. str_nat (i + 1) @ '') '' @ example_choices ! i @ [CHR 0x0A])
       [0..<length example_choices]) =
     ''1) dev'' @ [CHR 0x0A] @ ''2) staging'' @ [CHR 0x0A] @ ''3) prod'' @ [CHR 0x0A]"
    by code_simp
  have "display_prompt ''Pick?'' (Some example_choices) =
          ''Pick?'' @ [CHR 0x0A] @ [CHR 0x0A] @ ''Options:'' @ [CHR 0x0A] @
          concat (map (\<lambda>i. str_nat (i + 1) @ '') '' @ example_choices ! i @ [CHR 0x0A])
            [0..<length example_choices]) @
          ''(Type the value or its number)''"
    using display_prompt_layout [of "''Pick?''" example_choices] ne by blast
  then show ?thesis
    unfolding lines using ne by simp
qed

section \<open>Failures of the elicitation\<close>

text \<open>
  C4. When the channel does not respond to the request within 60 seconds, the call
  fails with the \<open>TimeoutError\<close> whose message names the 60 second clarification
  timeout, not with a \<open>RuntimeError\<close>, and the channel has been asked exactly once.
\<close>

theorem timeout_error:
  assumes "\<not> responds_within (channel ctx (requests ctx) (display_prompt prompt choices)) 60"
  shows "ask_clarification ctx prompt choices =
           (ctx\<lparr>requests := requests ctx @ [display_prompt prompt choices]\<rparr>,
            Inl (TimeoutError
              ''MCP error -32001: Clarification request timed out after 60 seconds''))"
  using assms
  by (auto simp: ask_clarification_def elicit_def wait_for_def responds_within_def
      asyncio_TimeoutError_def split: behaviour.splits)

theorem timeout_error_witness:
  "\<not> responds_within
       (channel (late_once (accepted (form ''2''))) (requests (late_once (accepted (form ''2''))))
          (display_prompt ''Pick?'' None)) 60 \<and>
   ask_clarification (late_once (accepted (form ''2''))) ''Pick?'' None =
     ((late_once (accepted (form ''2'')))\<lparr>requests := [''Pick?'']\<rparr>,
      Inl (TimeoutError ''MCP error -32001: Clarification request timed out after 60 seconds''))"
proof -
  have h: "\<not> responds_within
       (channel (late_once (accepted (form ''2''))) (requests (late_once (accepted (form ''2''))))
          (display_prompt ''Pick?'' None)) 60"
    by (simp add: late_once_def responds_within_def)
  show ?thesis
    using timeout_error [OF h] h by (simp add: late_once_def display_prompt_def)
qed

text \<open>
  C7. When the awaited call raises, in time, an exception that is no
  \<open>asyncio.TimeoutError\<close>, the call fails with a \<open>RuntimeError\<close> whose message is
  \<open>Elicitation failed: \<close> followed by the text of that exception, and whose cause is
  that exception.
\<close>

theorem channel_failure_wrapped:
  assumes "channel ctx (requests ctx) (display_prompt prompt choices) = Responds t (Raises e)"
    and "t < 60"
    and "\<not> is_asyncio_timeout e"
  shows "snd (ask_clarification ctx prompt choices) =
           Inl (RuntimeError (''Elicitation failed: '' @ exc_str e) e)"
  using assms by (simp add: ask_clarification_def elicit_def wait_for_def)

theorem channel_failure_wrapped_witness:
  "channel (answering (Raises (PyExc False ''connection closed'')))
     (requests (answering (Raises (PyExc False ''connection closed''))))
     (display_prompt ''Pick?'' None) = Responds 1 (Raises (PyExc False ''connection closed'')) \<and>
   (1::real) < 60 \<and> \<not> is_asyncio_timeout (PyExc False ''connection closed'') \<and>
   snd (ask_clarification (answering (Raises (PyExc False ''connection closed''))) ''Pick?'' None) =
     Inl (RuntimeError ''Elicitation failed: connection closed''
            (PyExc False ''connection closed''))"
proof -
  have h: "channel (answering (Raises (PyExc False ''connection closed'')))
     (requests (answering (Raises (PyExc False ''connection closed''))))
     (display_prompt ''Pick?'' None) = Responds 1 (Raises (PyExc False ''connection closed''))"
    by (simp add: answering_def)
  show ?thesis
    using channel_failure_wrapped [OF h] h by simp
qed

section \<open>Facts about trimming and extraction\<close>

lemma last_dropWhile_ne: "dropWhile P xs \<noteq> [] \<Longrightarrow> last (dropWhile P xs) = last xs"
  by (induction xs) (auto split: if_splits)

lemma rstrip_fix: "s = [] \<or> \<not> isspace (last s) \<Longrightarrow> rstrip s = s"
  by (cases s rule: rev_cases) (auto simp: rstrip_def)

lemma lstrip_fix: "s = [] \<or> \<not> isspace (hd s) \<Longrightarrow> lstrip s = s"
  by (cases s) (auto simp: lstrip_def)

lemma strip_ends:
  "strip s = [] \<or> (\<not> isspace (hd (strip s)) \<and> \<not> isspace (last (strip s)))"
proof (cases "strip s = []")
  case True
  then show ?thesis by simp
next
  case False
  define t where "t = dropWhile isspace s"
  define u where "u = dropWhile isspace (rev t)"
  have su: "strip s = rev u"
    by (simp add: strip_def rstrip_def lstrip_def t_def u_def)
  with False have u: "u \<noteq> []" by simp
  then have t: "t \<noteq> []" by (auto simp: u_def)
  have "\<not> isspace (hd u)"
    using u hd_dropWhile [of isspace "rev t"] by (simp add: u_def)
  then have l: "\<not> isspace (last (strip s))"
    using u by (simp add: su last_rev)
  have "last u = last (rev t)"
    using u last_dropWhile_ne [of isspace "rev t"] by (simp add: u_def)
  then have "hd (strip s) = hd t"
    using u t by (simp add: su hd_rev last_rev)
  moreover have "\<not> isspace (hd t)"
    using t hd_dropWhile [of isspace s] by (simp add: t_def)
  ultimately show ?thesis using l by simp
qed

lemma strip_idem: "strip (strip s) = strip s"
proof -
  have "lstrip (strip s) = strip s"
    using strip_ends [of s] by (intro lstrip_fix) blast
  moreover have "rstrip (strip s) = strip s"
    using strip_ends [of s] by (intro rstrip_fix) blast
  ultimately show ?thesis
    by (simp add: strip_def [of "strip s"])
qed

lemma strip_Nil: "strip [] = []"
  by (simp add: strip_def rstrip_def lstrip_def)

lemma str_strip_stripped: "str_strip v = Inr a \<Longrightarrow> strip a = a"
  by (auto simp: str_strip_def strip_idem split: sum.splits)

lemma extract_accept_stripped: "extract_accept d = Inr a \<Longrightarrow> strip a = a"
  by (auto simp: extract_accept_def accept_try_def str_strip_stripped
      split: sum.splits if_splits)

lemma extract_direct_stripped: "strip (extract_direct r) = extract_direct r"
  by (auto simp: extract_direct_def direct_try_def str_strip_stripped strip_Nil
      split: sum.splits if_splits)

lemma extract_answer_stripped: "extract_answer result = Inr a \<Longrightarrow> strip a = a"
  by (auto simp: extract_answer_def Let_def extract_accept_stripped extract_direct_stripped
      split: if_splits)

section \<open>Facts about the resolution\<close>

lemma numeric_selection_index:
  assumes "py_split raw = w # ws"
    and "isdigit (rstrip_chars '').:]'' w)"
    and "int_of_digits (rstrip_chars '').:]'' w) = Inr i"
    and "1 \<le> i" and "i \<le> length cs"
  shows "numeric_selection cs raw = Some (cs ! (i - 1))"
  using assms by (simp add: numeric_selection_def numeric_try_def Let_def)

lemma numeric_selection_Some:
  assumes "numeric_selection cs raw = Some c"
  shows "\<exists>w ws i. py_split raw = w # ws \<and> isdigit (rstrip_chars '').:]'' w) \<and>
           int_of_digits (rstrip_chars '').:]'' w) = Inr i \<and> 1 \<le> i \<and> i \<le> length cs \<and>
           c = cs ! (i - 1)"
  using assms
  by (auto simp: numeric_selection_def numeric_try_def Let_def
      split: list.splits sum.splits if_splits)

lemma resolve_numeric:
  "cs \<noteq> [] \<Longrightarrow> numeric_selection cs (strip a) = Some c \<Longrightarrow> resolve_answer (Some cs) a = c"
  by (simp add: resolve_answer_def Let_def)

lemma resolve_text:
  "cs \<noteq> [] \<Longrightarrow> numeric_selection cs (strip a) = None \<Longrightarrow>
   resolve_answer (Some cs) a = (case text_selection cs (strip a) of None \<Rightarrow> a | Some c \<Rightarrow> c)"
  by (simp add: resolve_answer_def Let_def)

lemma text_selection_first:
  assumes "k < length cs"
    and "lower raw = lower (cs ! k)"
    and "\<forall>j<k. lower raw \<noteq> lower (cs ! j)"
  shows "text_selection cs raw = Some (cs ! k)"
  unfolding text_selection_def find_Some_iff using assms by blast

lemma text_selection_none:
  "\<forall>c\<in>set cs. lower raw \<noteq> lower c \<Longrightarrow> text_selection cs raw = None"
  by (simp add: text_selection_def find_None_iff)

section \<open>Resolution against the choices\<close>

text \<open>
  C1. Let the choices be non-empty and let the channel return a result from which the
  answer \<open>a\<close> is extracted. If the first white-space-delimited token of the trimmed
  answer, with trailing \<open>)\<close>, \<open>.\<close>, \<open>:\<close> and \<open>]\<close> stripped, consists of digits and
  parses to an index \<open>i\<close> with \<open>1 \<le> i \<le> len(choices)\<close>, then the returned answer is
  \<open>choices[i-1]\<close>.
\<close>

theorem numeric_answer_resolves:
  assumes "cs \<noteq> []"
    and "wait_for (channel ctx (requests ctx) (display_prompt prompt (Some cs))) 60 =
           Returns result"
    and "extract_answer result = Inr a"
    and "py_split (strip a) = w # ws"
    and "isdigit (rstrip_chars '').:]'' w)"
    and "int_of_digits (rstrip_chars '').:]'' w) = Inr i"
    and "1 \<le> i" and "i \<le> length cs"
  shows "snd (ask_clarification ctx prompt (Some cs)) =
           Inr \<lparr>question = prompt, answer = cs ! (i - 1)\<rparr>"
proof -
  have "numeric_selection cs (strip a) = Some (cs ! (i - 1))"
    using assms(4-8) by (rule numeric_selection_index)
  then have "resolve_answer (Some cs) a = cs ! (i - 1)"
    using assms(1) by (rule resolve_numeric [rotated])
  then show ?thesis
    using ask_clarification_returns [OF assms(2,3)] by simp
qed

theorem numeric_answer_resolves_witness:
  "snd (ask_clarification (answering (Returns (accepted (form ''2'')))) ''Pick?''
          (Some example_choices)) = Inr \<lparr>question = ''Pick?'', answer = ''staging''\<rparr> \<and>
   snd (ask_clarification (answering (Returns (accepted (form ''2)'')))) ''Pick?''
          (Some example_choices)) = Inr \<lparr>question = ''Pick?'', answer = ''staging''\<rparr> \<and>
   snd (ask_clarification (answering (Returns (accepted (form ''2.'')))) ''Pick?''
          (Some example_choices)) = Inr \<lparr>question = ''Pick?'', answer = ''staging''\<rparr>"
proof -
  have ne: "example_choices \<noteq> []"
    by (simp add: example_choices_def)
  have len: "(2::nat) \<le> length example_choices"
    by (simp add: example_choices_def)
  have nth: "example_choices ! Suc 0 = ''staging''"
    by (simp add: example_choices_def)
  have s1: "py_split (strip (strip ''2'')) = [''2'']"
    and s2: "py_split (strip (strip ''2)'')) = [''2)'']"
    and s3: "py_split (strip (strip ''2.'')) = [''2.'']"
    by code_simp+
  have d1: "isdigit (rstrip_chars '').:]'' ''2'')"
    and d2: "isdigit (rstrip_chars '').:]'' ''2)'')"
    and d3: "isdigit (rstrip_chars '').:]'' ''2.'')"
    by code_simp+
  have i1: "int_of_digits (rstrip_chars '').:]'' ''2'') = Inr 2"
    and i2: "int_of_digits (rstrip_chars '').:]'' ''2)'') = Inr 2"
    and i3: "int_of_digits (rstrip_chars '').:]'' ''2.'') = Inr 2"
    by code_simp+
  note r = numeric_answer_resolves [OF ne answering_reply extract_accepted_form]
  show ?thesis
    using r [OF s1 d1 i1 _ len] r [OF s2 d2 i2 _ len] r [OF s3 d3 i3 _ len]
    by (simp add: nth)
qed

text \<open>
  C10. The numeric match comes first: under the hypotheses of C1 the returned answer is
  \<open>choices[i-1]\<close> also when the whole trimmed answer equals some choice \<open>c\<close> up to
  case; the comparison with the choices decides only when the numeric path selects nothing.
\<close>

theorem numeric_precedence:
  assumes "cs \<noteq> []"
    and "wait_for (channel ctx (requests ctx) (display_prompt prompt (Some cs))) 60 =
           Returns result"
    and "extract_answer result = Inr a"
    and "py_split (strip a) = w # ws"
    and "isdigit (rstrip_chars '').:]'' w)"
    and "int_of_digits (rstrip_chars '').:]'' w) = Inr i"
    and "1 \<le> i" and "i \<le> length cs"
    and "c \<in> set cs" and "lower (strip a) = lower c"
  shows "snd (ask_clarification ctx prompt (Some cs)) =
           Inr \<lparr>question = prompt, answer = cs ! (i - 1)\<rparr> \<and>
         (text_selection cs (strip a) \<noteq> None) \<and>
         (\<forall>b. numeric_selection cs (strip b) = None \<longrightarrow>
            resolve_answer (Some cs) b =
              (case text_selection cs (strip b) of None \<Rightarrow> b | Some c' \<Rightarrow> c'))"
proof (intro conjI allI impI)
  have "numeric_selection cs (strip a) = Some (cs ! (i - 1))"
    using assms(4-8) by (rule numeric_selection_index)
  then have "resolve_answer (Some cs) a = cs ! (i - 1)"
    using assms(1) by (rule resolve_numeric [rotated])
  then show "snd (ask_clarification ctx prompt (Some cs)) =
           Inr \<lparr>question = prompt, answer = cs ! (i - 1)\<rparr>"
    using ask_clarification_returns [OF assms(2,3)] by simp
  show "text_selection cs (strip a) \<noteq> None"
    using assms(9,10) by (auto simp: text_selection_def find_None_iff)
next
  fix b
  assume "numeric_selection cs (strip b) = None"
  with assms(1) show "resolve_answer (Some cs) b =
      (case text_selection cs (strip b) of None \<Rightarrow> b | Some c' \<Rightarrow> c')"
    by (rule resolve_text)
qed

theorem numeric_precedence_witness:
  "''3'' \<in> set [''3'', ''b'', ''c''] \<and> lower (strip (strip ''3'')) = lower ''3'' \<and>
   snd (ask_clarification (answering (Returns (accepted (form ''3'')))) ''Which?''
          (Some [''3'', ''b'', ''c''])) = Inr \<lparr>question = ''Which?'', answer = ''c''\<rparr>"
proof -
  have ne: "[''3'', ''b'', ''c''] \<noteq> ([] :: string list)"
    by simp
  have s: "py_split (strip (strip ''3'')) = [''3'']"
    by code_simp
  have d: "isdigit (rstrip_chars '').:]'' ''3'')"
    by code_simp
  have i: "int_of_digits (rstrip_chars '').:]'' ''3'') = Inr 3"
    by code_simp
  have m: "''3'' \<in> set [''3'', ''b'', ''c'']"
    by simp
  have l: "lower (strip (strip ''3'')) = lower ''3''"
    by code_simp
  show ?thesis
    using numeric_precedence [OF ne answering_reply extract_accepted_form s d i _ _ m l] m l
    by simp
qed

text \<open>
  C2. Let the choices be non-empty and let the numeric path select nothing for the
  extracted answer. If \<open>k\<close> is the first position whose choice equals the whole trimmed
  answer after \<open>lower()\<close> on both sides, the returned answer is that choice as the list
  has it.
\<close>

theorem text_answer_resolves:
  assumes "cs \<noteq> []"
    and "wait_for (channel ctx (requests ctx) (display_prompt prompt (Some cs))) 60 =
           Returns result"
    and "extract_answer result = Inr a"
    and "numeric_selection cs (strip a) = None"
    and "k < length cs"
    and "lower (strip a) = lower (cs ! k)"
    and "\<forall>j<k. lower (strip a) \<noteq> lower (cs ! j)"
  shows "snd (ask_clarification ctx prompt (Some cs)) =
           Inr \<lparr>question = prompt, answer = cs ! k\<rparr>"
proof -
  have "text_selection cs (strip a) = Some (cs ! k)"
    using assms(5-7) by (rule text_selection_first)
  then have "resolve_answer (Some cs) a = cs ! k"
    using resolve_text [OF assms(1,4)] by simp
  then show ?thesis
    using ask_clarification_returns [OF assms(2,3)] by simp
qed

theorem text_answer_resolves_witness:
  "numeric_selection example_choices (strip (strip ''PROD'')) = None \<and>
   lower (strip (strip ''PROD'')) = lower (example_choices ! 2) \<and>
   lower (strip (strip ''PROD'')) \<noteq> lower (example_choices ! 0) \<and>
   lower (strip (strip ''PROD'')) \<noteq> lower (example_choices ! 1) \<and>
   snd (ask_clarification (answering (Returns (accepted (form ''PROD'')))) ''Pick?''
          (Some example_choices)) = Inr \<lparr>question = ''Pick?'', answer = ''prod''\<rparr>"
proof -
  have ne: "example_choices \<noteq> []"
    by (simp add: example_choices_def)
  have n: "numeric_selection example_choices (strip (strip ''PROD'')) = None"
    by code_simp
  have k: "2 < length example_choices"
    by (simp add: example_choices_def)
  have l2: "lower (strip (strip ''PROD'')) = lower (example_choices ! 2)"
    by code_simp
  have l0: "lower (strip (strip ''PROD'')) \<noteq> lower (example_choices ! 0)"
    by code_simp
  have l1: "lower (strip (strip ''PROD'')) \<noteq> lower (example_choices ! 1)"
    by code_simp
  have first: "\<forall>j<2. lower (strip (strip ''PROD'')) \<noteq> lower (example_choices ! j)"
    using l0 l1 by (auto simp: less_Suc_eq numeral_2_eq_2)
  have nth: "example_choices ! 2 = ''prod''"
    by (simp add: example_choices_def)
  show ?thesis
    using text_answer_resolves [OF ne answering_reply extract_accepted_form n k l2 first]
      n l0 l1 l2 by (simp add: nth)
qed

text \<open>
  C3. Let the choices be non-empty and let the channel return a result from which the
  answer \<open>a\<close> is extracted. The call then returns and raises nothing. If neither the
  numeric path nor the comparison with the choices selects anything, the returned
  answer is \<open>a\<close>, which is its own trimmed text. For the empty answer the first token
  does not exist, the \<open>IndexError\<close> counts as no numeric match, and the empty text is
  returned.
\<close>

theorem unmatched_answer_unchanged:
  assumes "cs \<noteq> []"
    and "wait_for (channel ctx (requests ctx) (display_prompt prompt (Some cs))) 60 =
           Returns result"
    and "extract_answer result = Inr a"
  shows "\<not> isl (snd (ask_clarification ctx prompt (Some cs))) \<and>
         (numeric_selection cs (strip a) = None \<and> (\<forall>c\<in>set cs. lower (strip a) \<noteq> lower c) \<longrightarrow>
            snd (ask_clarification ctx prompt (Some cs)) =
              Inr \<lparr>question = prompt, answer = strip a\<rparr> \<and> strip a = a) \<and>
         (a = [] \<longrightarrow>
            numeric_try cs (strip a) = Inl IndexError \<and>
            numeric_selection cs (strip a) = None \<and>
            snd (ask_clarification ctx prompt (Some cs)) =
              Inr \<lparr>question = prompt, answer = []\<rparr>)"
proof (intro conjI impI)
  note ret = ask_clarification_returns [OF assms(2,3)]
  show "\<not> isl (snd (ask_clarification ctx prompt (Some cs)))"
    by (simp add: ret)
  have stripped: "strip a = a"
    using assms(3) by (rule extract_answer_stripped)
  {
    assume h: "numeric_selection cs (strip a) = None \<and> (\<forall>c\<in>set cs. lower (strip a) \<noteq> lower c)"
    then have "text_selection cs (strip a) = None"
      by (simp add: text_selection_none)
    then have "resolve_answer (Some cs) a = a"
      using resolve_text [OF assms(1)] h by simp
    then show "snd (ask_clarification ctx prompt (Some cs)) =
        Inr \<lparr>question = prompt, answer = strip a\<rparr>"
      by (simp add: ret stripped)
    show "strip a = a"
      by (rule stripped)
  }
  {
    assume e: "a = []"
    show t: "numeric_try cs (strip a) = Inl IndexError"
      by (simp add: e strip_Nil numeric_try_def)
    then show n: "numeric_selection cs (strip a) = None"
      by (simp add: numeric_selection_def)
    have "resolve_answer (Some cs) [] = []"
      using resolve_text [OF assms(1), of "[]"] n e
      by (auto simp: strip_Nil text_selection_def lower_def split: option.splits
          dest!: find_Some_iff [THEN iffD1])
    then show "snd (ask_clarification ctx prompt (Some cs)) =
        Inr \<lparr>question = prompt, answer = []\<rparr>"
      by (simp add: ret e)
  }
qed

theorem unmatched_answer_unchanged_witness:
  "snd (ask_clarification (answering (Returns (accepted (form ''maybe later'')))) ''Pick?''
          (Some example_choices)) = Inr \<lparr>question = ''Pick?'', answer = ''maybe later''\<rparr> \<and>
   snd (ask_clarification (answering (Returns (accepted (form ''5'')))) ''Pick?''
          (Some example_choices)) = Inr \<lparr>question = ''Pick?'', answer = ''5''\<rparr> \<and>
   numeric_try example_choices (strip (strip [])) = Inl IndexError \<and>
   snd (ask_clarification (answering (Returns (accepted (form [])))) ''Pick?''
          (Some example_choices)) = Inr \<lparr>question = ''Pick?'', answer = []\<rparr>"
proof -
  have ne: "example_choices \<noteq> []"
    by (simp add: example_choices_def)
  note u = unmatched_answer_unchanged [OF ne answering_reply extract_accepted_form]
  have n1: "numeric_selection example_choices (strip (strip ''maybe later'')) = None"
    and n2: "numeric_selection example_choices (strip (strip ''5'')) = None"
    by code_simp+
  have t1: "\<forall>c\<in>set example_choices. lower (strip (strip ''maybe later'')) \<noteq> lower c"
    and t2: "\<forall>c\<in>set example_choices. lower (strip (strip ''5'')) \<noteq> lower c"
    by code_simp+
  have s1: "strip (strip ''maybe later'') = ''maybe later''"
    and s2: "strip (strip ''5'') = ''5''"
    and s3: "strip [] = []"
    by code_simp+
  show ?thesis
    using u [of "''maybe later''" "''Pick?''"] u [of "''5''" "''Pick?''"] u [of "[]" "''Pick?''"]
      n1 n2 t1 t2 by (simp add: s1 s2 s3)
qed

section \<open>Extraction of the answer\<close>

text \<open>
  C6, as the claim states it, fails: with an accepted payload whose conversion to text
  raises, the handler of the accept path converts the payload again, and that exception
  leaves \<open>ask_clarification\<close>.
\<close>

theorem extraction_total_counterexample:
  "extract_answer (accepted unprintable) = Inl (PyExc False ''boom'') \<and>
   snd (ask_clarification (answering (Returns (accepted unprintable))) ''Pick?'' None) =
     Inl (Propagated (PyExc False ''boom''))"
proof -
  have e: "extract_answer (accepted unprintable) = Inl (PyExc False ''boom'')"
    by (simp add: extract_answer_def accepted_def unprintable_def getattr_default_def
        extract_accept_def accept_try_def hasattr_def str_strip_def)
  then show ?thesis
    using answering_reply [of "Returns (accepted unprintable)" "display_prompt ''Pick?'' None"]
    by (simp add: ask_clarification_def elicit_def)
qed

text \<open>
  C6, amended. On the direct path (the action is not \<open>accept\<close>, or there is no payload)
  extraction never raises, and a failure inside it yields the empty text. On the accept
  path, for a payload whose own conversion to text succeeds, extraction never raises, and
  a failure inside the \<open>try\<close> yields the whole payload's text, trimmed.
\<close>

theorem extraction_total_when_printable:
  "(getattr_default result ''action'' PNone \<noteq> PStr ''accept'' \<or>
      getattr_default result ''data'' PNone = PNone \<longrightarrow>
        extract_answer result = Inr (extract_direct result) \<and>
        (isl (direct_try result) \<longrightarrow> extract_direct result = [])) \<and>
   (getattr_default result ''action'' PNone = PStr ''accept'' \<and>
      getattr_default result ''data'' PNone = data \<and> data \<noteq> PNone \<and> py_str data = Inr s \<longrightarrow>
        \<not> isl (extract_answer result) \<and>
        (isl (accept_try data) \<longrightarrow> extract_answer result = Inr (strip s)))"
proof (intro conjI impI)
  assume "getattr_default result ''action'' PNone \<noteq> PStr ''accept'' \<or>
    getattr_default result ''data'' PNone = PNone"
  then show "extract_answer result = Inr (extract_direct result)"
    by (auto simp: extract_answer_def Let_def)
next
  assume "isl (direct_try result)"
  then show "extract_direct result = []"
    by (auto simp: extract_direct_def isl_def)
next
  assume h: "getattr_default result ''action'' PNone = PStr ''accept'' \<and>
    getattr_default result ''data'' PNone = data \<and> data \<noteq> PNone \<and> py_str data = Inr s"
  then have e: "extract_answer result = extract_accept data"
    by (simp add: extract_answer_def Let_def)
  have w: "str_strip data = Inr (strip s)"
    using h by (simp add: str_strip_def)
  show "\<not> isl (extract_answer result)"
    by (auto simp: e extract_accept_def w split: sum.splits)
  assume "isl (accept_try data)"
  then show "extract_answer result = Inr (strip s)"
    by (auto simp: e extract_accept_def w isl_def)
qed

theorem extraction_total_when_printable_witness:
  "extract_answer declined = Inr (''action='decline'' @ [CHR 0x27]) \<and>
   extract_answer (PObj [(''answer'', unprintable)] (Inr ''r'')) = Inr [] \<and>
   extract_answer (accepted (PInt 2)) = Inr ''2'' \<and>
   isl (accept_try (PObj [(''answer'', unprintable)] (Inr '' form ''))) \<and>
   extract_answer (accepted (PObj [(''answer'', unprintable)] (Inr '' form ''))) = Inr ''form''"
proof -
  have d: "getattr_default declined ''action'' PNone \<noteq> PStr ''accept''"
    by (simp add: declined_def getattr_default_def)
  have d1: "extract_direct declined = ''action='decline'' @ [CHR 0x27]"
    by code_simp
  have f: "getattr_default (PObj [(''answer'', unprintable)] (Inr ''r'')) ''action'' PNone \<noteq>
             PStr ''accept''"
    by (simp add: getattr_default_def)
  have f1: "isl (direct_try (PObj [(''answer'', unprintable)] (Inr ''r'')))"
    by code_simp
  have a: "getattr_default (accepted (PInt 2)) ''action'' PNone = PStr ''accept'' \<and>
           getattr_default (accepted (PInt 2)) ''data'' PNone = PInt 2 \<and> PInt 2 \<noteq> PNone \<and>
           py_str (PInt 2) = Inr ''2''"
    by code_simp
  have a1: "extract_answer (accepted (PInt 2)) = Inr ''2''"
    by code_simp
  have b: "getattr_default (accepted (PObj [(''answer'', unprintable)] (Inr '' form '')))
             ''action'' PNone = PStr ''accept'' \<and>
           getattr_default (accepted (PObj [(''answer'', unprintable)] (Inr '' form '')))
             ''data'' PNone = PObj [(''answer'', unprintable)] (Inr '' form '') \<and>
           PObj [(''answer'', unprintable)] (Inr '' form '') \<noteq> PNone \<and>
           py_str (PObj [(''answer'', unprintable)] (Inr '' form '')) = Inr '' form ''"
    by code_simp
  have b1: "isl (accept_try (PObj [(''answer'', unprintable)] (Inr '' form '')))"
    by code_simp
  have s: "strip '' form '' = ''form''"
    by code_simp
  show ?thesis
    using extraction_total_when_printable [of declined PNone "[]"]
      extraction_total_when_printable [of "PObj [(''answer'', unprintable)] (Inr ''r'')" PNone "[]"]
      extraction_total_when_printable [of "accepted (PInt 2)" "PInt 2" "''2''"]
      extraction_total_when_printable
        [of "accepted (PObj [(''answer'', unprintable)] (Inr '' form ''))"
            "PObj [(''answer'', unprintable)] (Inr '' form '')" "'' form ''"]
      d d1 f f1 a a1 b b1 s
    by simp
qed

text \<open>
  C8. For an accepted payload that is a mapping with an \<open>answer\<close> entry, the claim asks
  for the entry's text, trimmed. The code gives it whenever that text is not empty, but
  for the mapping \<open>{"answer": " "}\<close> the accept path returns the text of the whole
  mapping, where the direct path on the same mapping, and the accept path on an instance
  with the same \<open>answer\<close> attribute, return the entry's trimmed text, which is empty.
\<close>

theorem mapping_entry_blank:
  "dict_lookup blank_entry ''answer'' = Some (PStr '' '') \<and>
   str_strip (PStr '' '') = Inr [] \<and>
   extract_answer (accepted blank_entry) = Inr ''{'answer': ' '}'' \<and>
   extract_answer (accepted blank_entry) \<noteq> str_strip (PStr '' '') \<and>
   extract_answer blank_entry = Inr [] \<and>
   extract_answer (accepted (form '' '')) = Inr []"
  by code_simp

end
